theory Spec2Isabelle
  imports Main "HOL-Library.Word"
begin

section \<open>Machine types and the system allocator\<close>

text \<open>
  The allocators of \<^verbatim>\<open>Chapter7MemoryManagement\<close> compute with \<^verbatim>\<open>size_t\<close> and with
  raw addresses. Both are modelled as 64-bit words (an LP64 platform): \<open>+\<close> wraps
  around as unsigned C arithmetic does, and \<open>\<le>\<close>, \<open><\<close> compare unsigned values.
  The null pointer is the address 0.
\<close>

type_synonym size_t = "64 word"
type_synonym ptr = "64 word"

definition NULL :: ptr where
  "NULL = 0"

text \<open>
  \<^verbatim>\<open>malloc\<close> belongs to the C library, not to the repository. It is modelled as an
  external collaborator whose answers are given in advance: \<open>answers\<close> lists the
  pointers the coming calls will return (\<open>NULL\<close> for a refused request; an exhausted list
  refuses everything), and \<open>granted\<close> records every buffer handed out together with the
  number of bytes that was asked for.
\<close>

record sys =
  answers :: "ptr list"
  granted :: "(ptr \<times> size_t) list"

definition malloc :: "size_t \<Rightarrow> sys \<Rightarrow> ptr \<times> sys" where
  "malloc n s =
     (case answers s of
        [] \<Rightarrow> (NULL, s)
      | a # as \<Rightarrow>
          (a, s\<lparr>answers := as,
                granted := (if a = NULL then granted s else (a, n) # granted s)\<rparr>))"

section \<open>The fixed-capacity pool of DynamicMemoryAllocation.c (section 3)\<close>

text \<open>
  \<^verbatim>\<open>
  typedef struct { void* memory; size_t used; size_t capacity; } MemoryPool;

  MemoryPool* create_pool(size_t capacity) {
      MemoryPool* pool = (MemoryPool*)malloc(sizeof(MemoryPool));
      if (pool) {
          pool->memory = malloc(capacity);
          pool->used = 0;
          pool->capacity = capacity;
      }
      return pool;
  }

  void* pool_alloc(MemoryPool* pool, size_t size) {
      if (pool->used + size > pool->capacity) return NULL;
      void* ptr = (char*)pool->memory + pool->used;
      pool->used += size;
      return ptr;
  }
  \<close>
  The handle \<^verbatim>\<open>MemoryPool*\<close> is an \<open>option\<close>: \<open>None\<close> is the null handle. The result of
  \<^verbatim>\<open>pool_alloc\<close> is an \<open>option\<close> too: \<open>None\<close> is the explicit \<^verbatim>\<open>return NULL\<close>, and
  \<open>Some q\<close> is the pointer computed by the bump. The pool is passed in and returned
  updated.
\<close>

record MemoryPool =
  memory :: ptr
  used :: size_t
  capacity :: size_t

definition sizeof_MemoryPool :: size_t where
  "sizeof_MemoryPool = 24"

definition create_pool :: "size_t \<Rightarrow> sys \<Rightarrow> MemoryPool option \<times> sys" where
  "create_pool cap s =
     (let (pool, s1) = malloc sizeof_MemoryPool s in
      if pool \<noteq> NULL then
        (let (m, s2) = malloc cap s1 in
         (Some \<lparr>memory = m, used = 0, capacity = cap\<rparr>, s2))
      else (None, s1))"

definition pool_alloc :: "MemoryPool \<Rightarrow> size_t \<Rightarrow> ptr option \<times> MemoryPool" where
  "pool_alloc pool sz =
     (if used pool + sz > capacity pool then (None, pool)
      else (Some (memory pool + used pool), pool\<lparr>used := used pool + sz\<rparr>))"

section \<open>The static pool of MemoryLeaks.c and StackVHeap.c (section 3)\<close>

text \<open>
  \<^verbatim>\<open>
  #define POOL_SIZE 1024
  static char memory_pool[POOL_SIZE];
  static size_t pool_index = 0;

  void* pool_alloc(size_t size) {
      if (pool_index + size > POOL_SIZE) return NULL;
      void* ptr = &memory_pool[pool_index];
      pool_index += size;
      return ptr;
  }

  void pool_reset() { pool_index = 0; }
  \<close>
  The two statics are the state: \<open>memory_pool\<close> is the address of the array, which
  never changes, and \<open>pool_index\<close> the bump offset. \<^verbatim>\<open>pool_reset\<close> exists in
  MemoryLeaks.c only.
\<close>

definition POOL_SIZE :: size_t where
  "POOL_SIZE = 1024"

record static_pool =
  memory_pool :: ptr
  pool_index :: size_t

definition static_init :: "ptr \<Rightarrow> static_pool" where
  "static_init base = \<lparr>memory_pool = base, pool_index = 0\<rparr>"

definition pool_alloc_static :: "static_pool \<Rightarrow> size_t \<Rightarrow> ptr option \<times> static_pool" where
  "pool_alloc_static st sz =
     (if pool_index st + sz > POOL_SIZE then (None, st)
      else (Some (memory_pool st + pool_index st), st\<lparr>pool_index := pool_index st + sz\<rparr>))"

definition pool_reset :: "static_pool \<Rightarrow> static_pool" where
  "pool_reset st = st\<lparr>pool_index := 0\<rparr>"

section \<open>The arena of StackVHeap.c (section 4)\<close>

text \<open>
  \<^verbatim>\<open>
  typedef struct { void* start; size_t size; size_t used; } MemoryArena;

  MemoryArena create_arena(size_t size) {
      MemoryArena arena;
      arena.start = malloc(size);
      arena.size = size;
      arena.used = 0;
      return arena;
  }

  void* arena_alloc(MemoryArena* arena, size_t size) {
      if (arena->used + size > arena->size) return NULL;
      void* ptr = (char*)arena->start + arena->used;
      arena->used += size;
      return ptr;
  }
  \<close>
\<close>

record MemoryArena =
  arena_start :: ptr
  arena_size :: size_t
  arena_used :: size_t

definition create_arena :: "size_t \<Rightarrow> sys \<Rightarrow> MemoryArena \<times> sys" where
  "create_arena sz s =
     (let (p, s1) = malloc sz s in
      (\<lparr>arena_start = p, arena_size = sz, arena_used = 0\<rparr>, s1))"

definition arena_alloc :: "MemoryArena \<Rightarrow> size_t \<Rightarrow> ptr option \<times> MemoryArena" where
  "arena_alloc arena sz =
     (if arena_used arena + sz > arena_size arena then (None, arena)
      else (Some (arena_start arena + arena_used arena),
            arena\<lparr>arena_used := arena_used arena + sz\<rparr>))"

section \<open>The chained pool of DynamicMemoryAllocation.c and MemoryLeaks.c (section 5)\<close>

text \<open>
  \<^verbatim>\<open>
  #define POOL_BLOCK_SIZE 1024
  typedef struct MemoryPool {
      char* memory; size_t used; struct MemoryPool* next;
  } MemoryPool;

  MemoryPool* create_pool() {
      MemoryPool* pool = (MemoryPool*)malloc(sizeof(MemoryPool));
      if (pool) {
          pool->memory = (char*)malloc(POOL_BLOCK_SIZE);
          pool->used = 0;
          pool->next = NULL;
      }
      return pool;
  }

  void* pool_alloc(MemoryPool** pool, size_t size) {
      if (!*pool || (*pool)->used + size > POOL_BLOCK_SIZE) {
          MemoryPool* new_pool = create_pool();
          if (!new_pool) return NULL;
          new_pool->next = *pool;
          *pool = new_pool;
      }
      void* ptr = &((*pool)->memory[(*pool)->used]);
      (*pool)->used += size;
      return ptr;
  }
  \<close>
  The same text stands in both files. A block is a value with its \<^verbatim>\<open>next\<close> link; the
  variable \<^verbatim>\<open>*pool\<close> the caller owns is an \<open>option\<close>, \<open>None\<close> for the null pointer.
\<close>

definition POOL_BLOCK_SIZE :: size_t where
  "POOL_BLOCK_SIZE = 1024"

datatype ChainedPool =
  ChainedPool (cmemory: ptr) (cused: size_t) (cnext: "ChainedPool option")

definition create_pool_chained :: "sys \<Rightarrow> ChainedPool option \<times> sys" where
  "create_pool_chained s =
     (let (pool, s1) = malloc sizeof_MemoryPool s in
      if pool \<noteq> NULL then
        (let (m, s2) = malloc POOL_BLOCK_SIZE s1 in
         (Some (ChainedPool m 0 None), s2))
      else (None, s1))"

definition bump_chained :: "ChainedPool \<Rightarrow> size_t \<Rightarrow> ptr \<times> ChainedPool" where
  "bump_chained b sz =
     (cmemory b + cused b, ChainedPool (cmemory b) (cused b + sz) (cnext b))"

definition needs_block :: "ChainedPool option \<Rightarrow> size_t \<Rightarrow> bool" where
  "needs_block pool sz =
     (case pool of None \<Rightarrow> True | Some b \<Rightarrow> cused b + sz > POOL_BLOCK_SIZE)"

definition pool_alloc_chained ::
  "ChainedPool option \<Rightarrow> size_t \<Rightarrow> sys \<Rightarrow> ptr option \<times> ChainedPool option \<times> sys" where
  "pool_alloc_chained pool sz s =
     (if needs_block pool sz then
        (case create_pool_chained s of
           (None, s') \<Rightarrow> (None, pool, s')
         | (Some new_pool, s') \<Rightarrow>
             (let (q, b) = bump_chained (ChainedPool (cmemory new_pool) (cused new_pool) pool) sz
              in (Some q, Some b, s')))
      else
        (case pool of
           None \<Rightarrow> (None, pool, s)
         | Some cur \<Rightarrow> (let (q, b) = bump_chained cur sz in (Some q, Some b, s))))"

text \<open>
  \<open>needs_block\<close> is the condition of the \<^verbatim>\<open>if\<close>, and \<open>bump_chained\<close> the three
  lines after it, which run on whichever block \<^verbatim>\<open>*pool\<close> then points to. The branch
  \<open>None\<close> of the last \<open>case\<close> is never taken: a null \<^verbatim>\<open>*pool\<close> satisfies
  \<open>needs_block\<close>.
\<close>

section \<open>Ranges and runs of calls\<close>

text \<open>
  The addresses of the \<open>n\<close> bytes that start at address \<open>q\<close>. Address arithmetic wraps
  around like every other \<^verbatim>\<open>size_t\<close> computation.
\<close>

definition byte_range :: "ptr \<Rightarrow> size_t \<Rightarrow> ptr set" where
  "byte_range q n = (\<lambda>k. q + of_nat k) ` {..<unat n}"

text \<open>A caller that makes one \<^verbatim>\<open>pool_alloc\<close> call after the other, keeping every answer.\<close>

fun pool_allocs :: "MemoryPool \<Rightarrow> size_t list \<Rightarrow> ptr option list \<times> MemoryPool" where
  "pool_allocs p [] = ([], p)"
| "pool_allocs p (n # ns) =
     (let (r, p') = pool_alloc p n; (rs, p'') = pool_allocs p' ns in (r # rs, p''))"

fun pool_allocs_static :: "static_pool \<Rightarrow> size_t list \<Rightarrow> ptr option list \<times> static_pool" where
  "pool_allocs_static st [] = ([], st)"
| "pool_allocs_static st (n # ns) =
     (let (r, st') = pool_alloc_static st n; (rs, st'') = pool_allocs_static st' ns
      in (r # rs, st''))"

text \<open>
  The static pool seen as a \<open>MemoryPool\<close> whose capacity is \<open>POOL_SIZE\<close>: the two
  \<^verbatim>\<open>pool_alloc\<close> functions then run the same test and the same bump.
\<close>

definition as_pool :: "static_pool \<Rightarrow> MemoryPool" where
  "as_pool st = \<lparr>memory = memory_pool st, used = pool_index st, capacity = POOL_SIZE\<rparr>"

text \<open>
  What the caller of \<^verbatim>\<open>pool_alloc\<close> holds in C is one \<^verbatim>\<open>void*\<close>: the explicit
  \<^verbatim>\<open>return NULL\<close> and a computed pointer that happens to be the address 0 look the same.
\<close>

definition returned_pointer :: "ptr option \<Rightarrow> ptr" where
  "returned_pointer r = (case r of None \<Rightarrow> NULL | Some q \<Rightarrow> q)"

section \<open>What the specification asks for\<close>

text \<open>
  Two definitions that follow the words of the specification, not the code, to compare the
  code with: "round \<open>used\<close> up to the nearest multiple of \<open>alignment\<close>", and a new
  block "sized \<open>max(default_block_size, size + alignment - 1)\<close>".
\<close>

definition spec_round_up :: "nat \<Rightarrow> nat \<Rightarrow> nat" where
  "spec_round_up u a = ((u + a - 1) div a) * a"

definition spec_block_size :: "nat \<Rightarrow> nat \<Rightarrow> nat \<Rightarrow> nat" where
  "spec_block_size default_block_size sz a = max default_block_size (sz + a - 1)"

section \<open>Ranges and offsets\<close>

lemma byte_range_iff: "x \<in> byte_range q n \<longleftrightarrow> x - q < n"
proof
  assume "x \<in> byte_range q n"
  then obtain k where k: "k < unat n" "x = q + of_nat k"
    by (auto simp: byte_range_def)
  have "k < 2 ^ LENGTH(64)"
    using k(1) unsigned_less [of n] by (rule order_less_trans)
  then have "unat (of_nat k :: 64 word) = k"
    by (simp add: unat_of_nat)
  then show "x - q < n" using k by (simp add: word_less_nat_alt)
next
  assume "x - q < n"
  then have "unat (x - q) < unat n" by (simp add: word_less_nat_alt)
  moreover have "x = q + of_nat (unat (x - q))" by simp
  ultimately show "x \<in> byte_range q n"
    unfolding byte_range_def by blast
qed

lemma in_range_offsets:
  fixes d off n :: "64 word"
  assumes "unat off + unat n \<le> 2 ^ 64"
  shows "d - off < n \<longleftrightarrow> unat off \<le> unat d \<and> unat d < unat off + unat n"
  using assms by (simp add: word_less_nat_alt unat_sub_if') (use unsigned_less [of d] in auto)

lemma unat_offset:
  assumes "unat (u :: 64 word) + k \<le> unat (c :: 64 word)"
  shows "unat (u + of_nat k) = unat u + k"
proof -
  have lt: "unat u + k < 2 ^ LENGTH(64)"
    using assms unsigned_less [of c] by (rule le_less_trans)
  then have "unat (of_nat k :: 64 word) = k"
    by (simp add: unat_of_nat)
  moreover from this lt have "unat u + unat (of_nat k :: 64 word) < 2 ^ LENGTH(64)"
    by simp
  ultimately show ?thesis
    using unat_add_lem [of u "of_nat k"] by simp
qed

lemma range_of_offset:
  fixes m off n c :: "64 word"
  assumes "unat off + unat n \<le> unat c"
  shows "x \<in> byte_range (m + off) n
           \<longleftrightarrow> unat off \<le> unat (x - m) \<and> unat (x - m) < unat off + unat n"
proof -
  have "unat c < 2 ^ LENGTH(64)"
    by (rule unsigned_less)
  with assms have "unat off + unat n \<le> 2 ^ 64"
    by simp
  from in_range_offsets [OF this, of "x - m"] show ?thesis
    by (simp add: byte_range_iff diff_diff_eq)
qed

lemma range_of_block:
  "x \<in> byte_range m c \<longleftrightarrow> unat (x - m) < unat c"
  by (simp add: byte_range_iff word_less_nat_alt)

lemma byte_range_mono: "n \<le> c \<Longrightarrow> byte_range q n \<subseteq> byte_range q c"
  by (auto simp: byte_range_iff)

section \<open>One call and runs of calls on the fixed pool\<close>

lemma sum_take_Suc:
  fixes xs :: "nat list"
  shows "i < length xs \<Longrightarrow> sum_list (take (Suc i) xs) = sum_list (take i xs) + xs ! i"
  by (simp add: take_Suc_conv_app_nth)

lemma sum_take_le:
  fixes xs :: "nat list"
  shows "sum_list (take i xs) \<le> sum_list xs"
proof -
  have "sum_list xs = sum_list (take i xs) + sum_list (drop i xs)"
    by (metis append_take_drop_id sum_list_append)
  then show ?thesis by simp
qed

lemma sum_take_mono:
  fixes xs :: "nat list"
  assumes "i \<le> j"
  shows "sum_list (take i xs) \<le> sum_list (take j xs)"
proof -
  have "take i xs = take i (take j xs)"
    using assms by (simp add: min_def)
  then show ?thesis
    using sum_take_le [of i "take j xs"] by simp
qed

lemma pool_alloc_fits:
  assumes "unat (used p) + unat n \<le> unat (capacity p)"
  shows "pool_alloc p n = (Some (memory p + used p), p\<lparr>used := used p + n\<rparr>)"
    and "unat (used p + n) = unat (used p) + unat n"
proof -
  have "unat (used p) + unat n < 2 ^ LENGTH(64)"
    using assms unsigned_less [of "capacity p"] by (rule le_less_trans)
  then show u: "unat (used p + n) = unat (used p) + unat n"
    by (rule unat_add_lem [THEN iffD1])
  then have "\<not> capacity p < used p + n"
    using assms by (simp add: word_less_nat_alt)
  then show "pool_alloc p n = (Some (memory p + used p), p\<lparr>used := used p + n\<rparr>)"
    by (simp add: pool_alloc_def)
qed

lemma pool_allocs_length: "length (fst (pool_allocs p ns)) = length ns"
  by (induction ns arbitrary: p) (simp_all add: split_beta)

lemma pool_allocs_nth:
  assumes "unat (used p) + sum_list (map unat ns) \<le> unat (capacity p)" and "i < length ns"
  shows "fst (pool_allocs p ns) ! i
           = Some (memory p + (used p + of_nat (sum_list (map unat (take i ns)))))"
  using assms
proof (induction ns arbitrary: p i)
  case Nil
  then show ?case by simp
next
  case (Cons n ns)
  have fit: "unat (used p) + unat n \<le> unat (capacity p)"
    using Cons.prems(1) by simp
  note step = pool_alloc_fits [OF fit]
  show ?case
  proof (cases i)
    case 0
    then show ?thesis by (simp add: step split_beta)
  next
    case (Suc k)
    let ?p' = "p\<lparr>used := used p + n\<rparr>"
    have "unat (used ?p') + sum_list (map unat ns) \<le> unat (capacity ?p')"
      using Cons.prems(1) step(2) by simp
    moreover have "k < length ns"
      using Cons.prems(2) Suc by simp
    ultimately have "fst (pool_allocs ?p' ns) ! k
        = Some (memory ?p' + (used ?p' + of_nat (sum_list (map unat (take k ns)))))"
      by (rule Cons.IH)
    then show ?thesis
      using Suc by (simp add: step split_beta add.assoc)
  qed
qed

lemma dvd_sum_list:
  fixes a :: nat
  shows "(\<forall>x\<in>set xs. a dvd x) \<Longrightarrow> a dvd sum_list xs"
  by (induction xs) simp_all

lemma pool_allocs_offset:
  assumes fit: "unat (used p) + sum_list (map unat ns) \<le> unat (capacity p)" and i: "i < length ns"
  shows "\<exists>q. fst (pool_allocs p ns) ! i = Some q \<and>
           unat (q - memory p) = unat (used p) + sum_list (map unat (take i ns))"
proof -
  have "sum_list (map unat (take i ns)) \<le> sum_list (map unat ns)"
    using sum_take_le [of i "map unat ns"] by (simp add: take_map)
  with fit have "unat (used p) + sum_list (map unat (take i ns)) \<le> unat (capacity p)"
    by simp
  then have "unat (used p + of_nat (sum_list (map unat (take i ns))))
      = unat (used p) + sum_list (map unat (take i ns))"
    by (rule unat_offset)
  then show ?thesis
    using pool_allocs_nth [OF fit i] by simp
qed

lemma pool_alloc_keeps_bound:
  "used p \<le> capacity p \<Longrightarrow> used (snd (pool_alloc p n)) \<le> capacity (snd (pool_alloc p n))"
  by (simp add: pool_alloc_def not_less)

lemma pool_alloc_rejects_without_wrap:
  assumes "unat (used p) + unat n < 2 ^ 64" and "unat (capacity p) < unat (used p) + unat n"
  shows "pool_alloc p n = (None, p)"
proof -
  have "unat (used p) + unat n < 2 ^ LENGTH(64)"
    using assms(1) by simp
  then have "unat (used p + n) = unat (used p) + unat n"
    by (rule unat_add_lem [THEN iffD1])
  with assms(2) have "capacity p < used p + n"
    by (simp add: word_less_nat_alt)
  then show ?thesis
    by (simp add: pool_alloc_def)
qed

lemma pool_alloc_static_as_pool:
  "fst (pool_alloc_static st n) = fst (pool_alloc (as_pool st) n)"
  "as_pool (snd (pool_alloc_static st n)) = snd (pool_alloc (as_pool st) n)"
  by (simp_all add: pool_alloc_static_def pool_alloc_def as_pool_def)

lemma pool_allocs_static_as_pool:
  "fst (pool_allocs_static st ns) = fst (pool_allocs (as_pool st) ns)"
proof (induction ns arbitrary: st)
  case Nil
  then show ?case by simp
next
  case (Cons n ns)
  show ?case
    using Cons.IH [of "snd (pool_alloc_static st n)"]
    by (simp add: split_beta pool_alloc_static_as_pool)
qed

lemma fitting_run:
  assumes fit: "unat (used p) + sum_list (map unat ns) \<le> unat (capacity p)"
  shows "(\<forall>i<length ns. \<exists>q. fst (pool_allocs p ns) ! i = Some q \<and>
            byte_range q (ns ! i) \<subseteq> byte_range (memory p) (capacity p)) \<and>
         (\<forall>i j q q'. i < j \<and> j < length ns \<and>
            fst (pool_allocs p ns) ! i = Some q \<and> fst (pool_allocs p ns) ! j = Some q' \<longrightarrow>
            byte_range q (ns ! i) \<inter> byte_range q' (ns ! j) = {})"
proof -
  define S where "S i = sum_list (take i (map unat ns))" for i
  have S_Suc: "S (Suc i) = S i + unat (ns ! i)" if "i < length ns" for i
    using that sum_take_Suc [of i "map unat ns"] by (simp add: S_def)
  have S_mono: "S i \<le> S j" if "i \<le> j" for i j
    using that by (simp add: S_def sum_take_mono)
  have S_top: "S i \<le> sum_list (map unat ns)" for i
    by (simp add: S_def sum_take_le)
  have nth: "fst (pool_allocs p ns) ! i = Some (memory p + (used p + of_nat (S i)))"
    if "i < length ns" for i
    using pool_allocs_nth [OF fit that] by (simp add: S_def take_map)
  have off: "unat (used p + of_nat (S i)) = unat (used p) + S i" for i
    using fit S_top [of i] by (intro unat_offset [of _ _ "capacity p"]) simp
  have top: "unat (used p) + S i + unat (ns ! i) \<le> unat (capacity p)" if "i < length ns" for i
    using fit S_top [of "Suc i"] S_Suc [OF that] by simp
  have mem: "x \<in> byte_range (memory p + (used p + of_nat (S i))) (ns ! i)
      \<longleftrightarrow> unat (used p) + S i \<le> unat (x - memory p) \<and>
          unat (x - memory p) < unat (used p) + S i + unat (ns ! i)"
    if "i < length ns" for i x
    using range_of_offset [of "used p + of_nat (S i)" "ns ! i" "capacity p" x "memory p"]
      top [OF that] by (simp add: off)
  have inside: "\<exists>q. fst (pool_allocs p ns) ! i = Some q \<and>
            byte_range q (ns ! i) \<subseteq> byte_range (memory p) (capacity p)"
    if "i < length ns" for i
  proof -
    have "x \<in> byte_range (memory p) (capacity p)"
      if "x \<in> byte_range (memory p + (used p + of_nat (S i))) (ns ! i)" for x
    proof -
      from that have "unat (x - memory p) < unat (used p) + S i + unat (ns ! i)"
        by (simp add: mem [OF \<open>i < length ns\<close>])
      with top [OF \<open>i < length ns\<close>] have "unat (x - memory p) < unat (capacity p)"
        by simp
      then show ?thesis by (simp add: range_of_block)
    qed
    then show ?thesis
      by (auto simp: nth [OF that])
  qed
  have apart: "byte_range q (ns ! i) \<inter> byte_range q' (ns ! j) = {}"
    if "i < j" "j < length ns" "fst (pool_allocs p ns) ! i = Some q"
      "fst (pool_allocs p ns) ! j = Some q'" for i j q q'
  proof -
    have i: "i < length ns" using that by simp
    have q: "q = memory p + (used p + of_nat (S i))"
      using that(3) nth [OF i] by simp
    have q': "q' = memory p + (used p + of_nat (S j))"
      using that(4) nth [OF that(2)] by simp
    have "S i + unat (ns ! i) \<le> S j"
      using S_mono [of "Suc i" j] S_Suc [OF i] that(1) by simp
    then show ?thesis
      unfolding q q' by (auto simp: mem [OF i] mem [OF that(2)])
  qed
  show ?thesis
    using inside apart by blast
qed

section \<open>Capacity\<close>

text \<open>
  C1. The specification asks that \<open>used\<close> never exceeds the capacity of a block and that
  no range reaches past the end of its block. The chained \<^verbatim>\<open>pool_alloc\<close> tests the
  request against \<open>POOL_BLOCK_SIZE\<close> only to decide whether to chain; it never tests it
  against the block it has just created. A caller that creates a pool and asks for 2000
  bytes gets a fresh block whose buffer holds \<open>POOL_BLOCK_SIZE = 1024\<close> bytes, with
  \<open>used = 2000\<close>, and a range whose byte 1500 lies outside that buffer. (In the fixed
  pool \<open>used \<le> capacity\<close> is kept by every call, see \<open>pool_alloc_keeps_bound\<close>.)
\<close>

theorem chained_oversize_overruns_block:
  "create_pool_chained \<lparr>answers = [0x1000, 0x2000, 0x3000, 0x4000], granted = []\<rparr>
     = (Some (ChainedPool 0x2000 0 None),
        \<lparr>answers = [0x3000, 0x4000], granted = [(0x2000, POOL_BLOCK_SIZE), (0x1000, sizeof_MemoryPool)]\<rparr>) \<and>
   pool_alloc_chained (Some (ChainedPool 0x2000 0 None)) 2000
       \<lparr>answers = [0x3000, 0x4000], granted = [(0x2000, POOL_BLOCK_SIZE), (0x1000, sizeof_MemoryPool)]\<rparr>
     = (Some 0x4000,
        Some (ChainedPool 0x4000 2000 (Some (ChainedPool 0x2000 0 None))),
        \<lparr>answers = [],
         granted = [(0x4000, POOL_BLOCK_SIZE), (0x3000, sizeof_MemoryPool),
                    (0x2000, POOL_BLOCK_SIZE), (0x1000, sizeof_MemoryPool)]\<rparr>) \<and>
   POOL_BLOCK_SIZE < 2000 \<and>
   0x4000 + 1500 \<in> byte_range 0x4000 2000 \<and>
   0x4000 + 1500 \<notin> byte_range 0x4000 POOL_BLOCK_SIZE"
  by (simp add: create_pool_chained_def pool_alloc_chained_def needs_block_def bump_chained_def
      malloc_def NULL_def POOL_BLOCK_SIZE_def byte_range_iff)

text \<open>
  C6. The specification asks that a request that does not fit in the remaining space of
  the fixed pool fails. The test \<^verbatim>\<open>pool->used + size > pool->capacity\<close> adds in
  \<^verbatim>\<open>size_t\<close>, so the sum wraps around for a huge \<open>size\<close>. After
  \<^verbatim>\<open>create_pool(16)\<close> and \<^verbatim>\<open>pool_alloc(pool, 10)\<close>, the call
  \<^verbatim>\<open>pool_alloc(pool, 10)\<close> fails as the example of the specification says, but
  \<^verbatim>\<open>pool_alloc(pool, (size_t)-5)\<close>, which asks for far more than the 6 bytes left,
  is answered with the address at offset 10 and moves \<open>used\<close> back to 5. (Where the
  sum does not wrap, the test rejects every request that does not fit, see
  \<open>pool_alloc_rejects_without_wrap\<close>.)
\<close>

theorem pool_alloc_wraps_past_capacity:
  "create_pool 16 \<lparr>answers = [0x1000, 0x2000], granted = []\<rparr>
     = (Some \<lparr>memory = 0x2000, used = 0, capacity = 16\<rparr>,
        \<lparr>answers = [], granted = [(0x2000, 16), (0x1000, sizeof_MemoryPool)]\<rparr>) \<and>
   pool_alloc \<lparr>memory = 0x2000, used = 0, capacity = 16\<rparr> 10
     = (Some 0x2000, \<lparr>memory = 0x2000, used = 10, capacity = 16\<rparr>) \<and>
   pool_alloc \<lparr>memory = 0x2000, used = 10, capacity = 16\<rparr> 10
     = (None, \<lparr>memory = 0x2000, used = 10, capacity = 16\<rparr>) \<and>
   unat (16 :: size_t) - unat (10 :: size_t) < unat (0xFFFFFFFFFFFFFFFB :: size_t) \<and>
   pool_alloc \<lparr>memory = 0x2000, used = 10, capacity = 16\<rparr> 0xFFFFFFFFFFFFFFFB
     = (Some 0x200A, \<lparr>memory = 0x2000, used = 5, capacity = 16\<rparr>)"
  by (simp add: create_pool_def pool_alloc_def malloc_def NULL_def)

section \<open>Creation\<close>

text \<open>
  C7. The specification asks that creation fails, and yields no arena, when the system
  allocator refuses the backing block. \<^verbatim>\<open>create_pool\<close> tests the result of the first
  \<^verbatim>\<open>malloc\<close> (the header) and not of the second (the buffer): when the buffer is
  refused it returns a non-null pool whose \<open>memory\<close> is \<open>NULL\<close>, for every capacity.
  \<^verbatim>\<open>create_arena\<close> tests nothing and returns an arena whose \<open>start\<close> is \<open>NULL\<close>.
  Allocation on such a pool succeeds: the first call returns the null address itself, the
  second the address 40.
\<close>

theorem create_returns_handle_without_backing:
  "create_pool cap \<lparr>answers = [0x1000, NULL], granted = []\<rparr>
     = (Some \<lparr>memory = NULL, used = 0, capacity = cap\<rparr>,
        \<lparr>answers = [], granted = [(0x1000, sizeof_MemoryPool)]\<rparr>) \<and>
   create_arena cap \<lparr>answers = [NULL], granted = []\<rparr>
     = (\<lparr>arena_start = NULL, arena_size = cap, arena_used = 0\<rparr>,
        \<lparr>answers = [], granted = []\<rparr>) \<and>
   pool_alloc \<lparr>memory = NULL, used = 0, capacity = 1024\<rparr> 40
     = (Some NULL, \<lparr>memory = NULL, used = 40, capacity = 1024\<rparr>) \<and>
   pool_alloc \<lparr>memory = NULL, used = 40, capacity = 1024\<rparr> 40
     = (Some 40, \<lparr>memory = NULL, used = 80, capacity = 1024\<rparr>)"
  by (simp add: create_pool_def create_arena_def pool_alloc_def malloc_def NULL_def)

section \<open>Arguments\<close>

text \<open>
  C8, as stated, fails: \<^verbatim>\<open>pool_alloc\<close> has no alignment argument and validates nothing.
  On a fresh pool of capacity 64 a request of size 0 succeeds.
\<close>

theorem zero_size_counterexample:
  "pool_alloc \<lparr>memory = 0x2000, used = 0, capacity = 64\<rparr> 0
     = (Some 0x2000, \<lparr>memory = 0x2000, used = 0, capacity = 64\<rparr>)"
  by (simp add: pool_alloc_def)

text \<open>
  C8, amended. \<^verbatim>\<open>pool_alloc\<close> takes a size and nothing else, and it accepts the size 0:
  on every pool whose buffer was allocated (\<open>memory\<close> is not \<open>NULL\<close> and the block does not
  run over the end of the address space) and with \<open>used \<le> capacity\<close>, a request of
  size 0 succeeds. The pointer the caller receives is \<open>memory + used\<close>, it is not
  \<open>NULL\<close>, and the pool is left as it was.
\<close>

theorem zero_size_returns_bump_address:
  "memory p \<noteq> NULL \<and> unat (memory p) + unat (capacity p) < 2 ^ 64 \<and> used p \<le> capacity p \<longrightarrow>
     pool_alloc p 0 = (Some (memory p + used p), p) \<and>
     returned_pointer (fst (pool_alloc p 0)) = memory p + used p \<and>
     returned_pointer (fst (pool_alloc p 0)) \<noteq> NULL"
proof (intro impI)
  assume h: "memory p \<noteq> NULL \<and> unat (memory p) + unat (capacity p) < 2 ^ 64 \<and>
    used p \<le> capacity p"
  then have le: "unat (used p) \<le> unat (capacity p)"
    by (simp add: word_le_nat_alt)
  with h have "unat (memory p) + unat (used p) < 2 ^ LENGTH(64)"
    by simp
  then have sum: "unat (memory p + used p) = unat (memory p) + unat (used p)"
    by (rule unat_add_lem [THEN iffD1])
  have "unat (memory p) \<noteq> 0"
    using h by (simp add: NULL_def unat_eq_0)
  with sum have "unat (memory p + used p) \<noteq> 0"
    by simp
  then have nz: "memory p + used p \<noteq> NULL"
    by (simp add: NULL_def unat_eq_0)
  have call: "pool_alloc p 0 = (Some (memory p + used p), p)"
    using h by (simp add: pool_alloc_def not_less)
  show "pool_alloc p 0 = (Some (memory p + used p), p) \<and>
     returned_pointer (fst (pool_alloc p 0)) = memory p + used p \<and>
     returned_pointer (fst (pool_alloc p 0)) \<noteq> NULL"
    using nz by (simp add: call returned_pointer_def)
qed

theorem zero_size_returns_bump_address_witness:
  "memory \<lparr>memory = 0x2000, used = 20, capacity = 64\<rparr> \<noteq> NULL \<and>
   unat (memory \<lparr>memory = 0x2000, used = 20, capacity = 64\<rparr>)
     + unat (capacity \<lparr>memory = 0x2000, used = 20, capacity = 64\<rparr>) < 2 ^ 64 \<and>
   used \<lparr>memory = 0x2000, used = 20, capacity = 64\<rparr>
     \<le> capacity \<lparr>memory = 0x2000, used = 20, capacity = 64\<rparr> \<and>
   pool_alloc \<lparr>memory = 0x2000, used = 20, capacity = 64\<rparr> 0
     = (Some 0x2014, \<lparr>memory = 0x2000, used = 20, capacity = 64\<rparr>) \<and>
   returned_pointer (fst (pool_alloc \<lparr>memory = 0x2000, used = 20, capacity = 64\<rparr> 0)) = 0x2014 \<and>
   returned_pointer (fst (pool_alloc \<lparr>memory = 0x2000, used = 20, capacity = 64\<rparr> 0)) \<noteq> NULL"
proof -
  let ?p = "\<lparr>memory = 0x2000, used = 20, capacity = 64\<rparr>"
  have h1: "memory ?p \<noteq> NULL" by (simp add: NULL_def)
  have h2: "unat (memory ?p) + unat (capacity ?p) < 2 ^ 64" by simp
  have h3: "used ?p \<le> capacity ?p" by simp
  from zero_size_returns_bump_address [of ?p] h1 h2 h3
  have r: "pool_alloc ?p 0 = (Some (memory ?p + used ?p), ?p) \<and>
     returned_pointer (fst (pool_alloc ?p 0)) = memory ?p + used ?p \<and>
     returned_pointer (fst (pool_alloc ?p 0)) \<noteq> NULL"
    by blast
  have v: "memory ?p + used ?p = 0x2014" by simp
  from r have r1: "pool_alloc ?p 0 = (Some 0x2014, ?p)"
    and r2: "returned_pointer (fst (pool_alloc ?p 0)) = 0x2014"
    and r3: "returned_pointer (fst (pool_alloc ?p 0)) \<noteq> NULL"
    unfolding v by blast+
  show ?thesis
    by (intro conjI h1 h2 h3 r1 r2 r3)
qed

section \<open>Reset\<close>

text \<open>
  C9. After \<^verbatim>\<open>pool_reset\<close> (MemoryLeaks.c) the pool places allocations as a fresh
  one does: whatever the state before the reset, a request of at most \<open>POOL_SIZE\<close> bytes
  succeeds and returns the base address of the pool, the address that the very first
  allocation on the initial state returns. The capacity of this pool is the constant
  \<open>POOL_SIZE = 1024\<close>; the sequence allocate, reset, allocate of the example returns the
  same address twice, for 64 bytes as for all \<open>POOL_SIZE\<close> bytes.
\<close>

theorem reset_restarts_at_base:
  "sz \<le> POOL_SIZE \<Longrightarrow>
     pool_reset st = static_init (memory_pool st) \<and>
     pool_alloc_static (pool_reset st) sz = (Some (memory_pool st), st\<lparr>pool_index := sz\<rparr>) \<and>
     fst (pool_alloc_static (static_init (memory_pool st)) sz) = Some (memory_pool st)"
  by (simp add: pool_alloc_static_def pool_reset_def static_init_def not_less)

theorem reset_restarts_at_base_witness:
  "(64 :: size_t) \<le> POOL_SIZE \<and>
   fst (pool_alloc_static (static_init 0x2000) 64) = Some 0x2000 \<and>
   pool_alloc_static (pool_reset (snd (pool_alloc_static (static_init 0x2000) 64))) 64
     = (Some 0x2000, \<lparr>memory_pool = 0x2000, pool_index = 64\<rparr>) \<and>
   POOL_SIZE \<le> POOL_SIZE \<and>
   fst (pool_alloc_static (static_init 0x2000) POOL_SIZE) = Some 0x2000 \<and>
   pool_alloc_static (pool_reset (snd (pool_alloc_static (static_init 0x2000) POOL_SIZE))) POOL_SIZE
     = (Some 0x2000, \<lparr>memory_pool = 0x2000, pool_index = POOL_SIZE\<rparr>)"
proof -
  let ?st1 = "\<lparr>memory_pool = 0x2000, pool_index = 64\<rparr>"
  let ?st2 = "\<lparr>memory_pool = 0x2000, pool_index = POOL_SIZE\<rparr>"
  have a: "(64 :: size_t) \<le> POOL_SIZE" by (simp add: POOL_SIZE_def)
  have b: "POOL_SIZE \<le> POOL_SIZE" by simp
  have s1: "snd (pool_alloc_static (static_init 0x2000) 64) = ?st1"
    by (simp add: pool_alloc_static_def static_init_def POOL_SIZE_def)
  have s2: "snd (pool_alloc_static (static_init 0x2000) POOL_SIZE) = ?st2"
    by (simp add: pool_alloc_static_def static_init_def)
  have c: "fst (pool_alloc_static (static_init 0x2000) 64) = Some 0x2000"
    using reset_restarts_at_base [OF a, of ?st1, THEN conjunct2, THEN conjunct2] by simp
  have d: "pool_alloc_static (pool_reset ?st1) 64 = (Some 0x2000, ?st1)"
    using reset_restarts_at_base [OF a, of ?st1, THEN conjunct2, THEN conjunct1] by simp
  have e: "fst (pool_alloc_static (static_init 0x2000) POOL_SIZE) = Some 0x2000"
    using reset_restarts_at_base [OF b, of ?st2, THEN conjunct2, THEN conjunct2] by simp
  have f: "pool_alloc_static (pool_reset ?st2) POOL_SIZE = (Some 0x2000, ?st2)"
    using reset_restarts_at_base [OF b, of ?st2, THEN conjunct2, THEN conjunct1] by simp
  show ?thesis
    unfolding s1 s2 by (intro conjI a b c d e f)
qed

section \<open>Failure leaves the state alone\<close>

text \<open>
  C10. Allocation failure is atomic in the fixed-capacity allocators: when
  \<^verbatim>\<open>pool_alloc\<close> (DynamicMemoryAllocation.c, MemoryLeaks.c) or \<^verbatim>\<open>arena_alloc\<close>
  (StackVHeap.c) returns \<^verbatim>\<open>NULL\<close>, the state it returns is the state it was given: the
  offset, the capacity and the backing pointer are unchanged, so any later call answers
  as if the failing call had never been made.
\<close>

theorem alloc_failure_atomic:
  "(fst (pool_alloc p n) = None \<longrightarrow>
      snd (pool_alloc p n) = p \<and> pool_alloc (snd (pool_alloc p n)) m = pool_alloc p m) \<and>
   (fst (arena_alloc a n) = None \<longrightarrow>
      snd (arena_alloc a n) = a \<and> arena_alloc (snd (arena_alloc a n)) m = arena_alloc a m) \<and>
   (fst (pool_alloc_static st n) = None \<longrightarrow>
      snd (pool_alloc_static st n) = st \<and>
      pool_alloc_static (snd (pool_alloc_static st n)) m = pool_alloc_static st m)"
  by (simp add: pool_alloc_def arena_alloc_def pool_alloc_static_def)

theorem alloc_failure_atomic_witness:
  "fst (pool_alloc \<lparr>memory = 4096, used = 10, capacity = 16\<rparr> 10) = None \<and>
   snd (pool_alloc \<lparr>memory = 4096, used = 10, capacity = 16\<rparr> 10)
     = \<lparr>memory = 4096, used = 10, capacity = 16\<rparr> \<and>
   pool_alloc (snd (pool_alloc \<lparr>memory = 4096, used = 10, capacity = 16\<rparr> 10)) 6
     = pool_alloc \<lparr>memory = 4096, used = 10, capacity = 16\<rparr> 6 \<and>
   fst (arena_alloc \<lparr>arena_start = 4096, arena_size = 16, arena_used = 10\<rparr> 10) = None \<and>
   snd (arena_alloc \<lparr>arena_start = 4096, arena_size = 16, arena_used = 10\<rparr> 10)
     = \<lparr>arena_start = 4096, arena_size = 16, arena_used = 10\<rparr> \<and>
   fst (pool_alloc_static \<lparr>memory_pool = 4096, pool_index = 1020\<rparr> 10) = None \<and>
   snd (pool_alloc_static \<lparr>memory_pool = 4096, pool_index = 1020\<rparr> 10)
     = \<lparr>memory_pool = 4096, pool_index = 1020\<rparr>"
proof -
  have 1: "fst (pool_alloc \<lparr>memory = 4096, used = 10, capacity = 16\<rparr> 10) = None"
    by (simp add: pool_alloc_def)
  have 2: "fst (arena_alloc \<lparr>arena_start = 4096, arena_size = 16, arena_used = 10\<rparr> 10) = None"
    by (simp add: arena_alloc_def)
  have 3: "fst (pool_alloc_static \<lparr>memory_pool = 4096, pool_index = 1020\<rparr> 10) = None"
    by (simp add: pool_alloc_static_def POOL_SIZE_def)
  show ?thesis
    using 1 2 3
      alloc_failure_atomic [of "\<lparr>memory = 4096, used = 10, capacity = 16\<rparr>" 10 6
        "\<lparr>arena_start = 4096, arena_size = 16, arena_used = 10\<rparr>"
        "\<lparr>memory_pool = 4096, pool_index = 1020\<rparr>"]
    by blast
qed

section \<open>Placement\<close>

text \<open>
  C3, as stated, fails: \<^verbatim>\<open>pool_alloc\<close> has no alignment argument and rounds nothing. A
  caller that needs 4-byte alignment and asks for 3 bytes when \<open>used = 3\<close> gets offset 3
  and \<open>used = 6\<close>, where rounding up would give offset 4 and \<open>used = 7\<close>.
\<close>

theorem no_rounding_counterexample:
  "pool_alloc \<lparr>memory = 0x2000, used = 3, capacity = 64\<rparr> 3
     = (Some 0x2003, \<lparr>memory = 0x2000, used = 6, capacity = 64\<rparr>) \<and>
   spec_round_up 3 4 = 4 \<and>
   pool_alloc \<lparr>memory = 0x2000, used = 3, capacity = 64\<rparr> 3
     \<noteq> (Some (0x2000 + of_nat (spec_round_up 3 4)),
         \<lparr>memory = 0x2000, used = of_nat (spec_round_up 3 4) + 3, capacity = 64\<rparr>)"
  by (simp add: pool_alloc_def spec_round_up_def)

text \<open>
  C3, amended. For every \<^verbatim>\<open>pool_alloc(pool, size)\<close> call that fits in the block
  (\<open>used + size \<le> capacity\<close>), the call returns the range that starts at offset
  \<open>used\<close> itself, which is what rounding to alignment 1 gives, and sets \<open>used\<close> to
  \<open>used + size\<close> without wrapping; in particular, on a fresh pool of capacity 64, a
  request of 10 bytes returns offset 0 and a second one offset 10, leaving \<open>used = 20\<close>.
\<close>

theorem alloc_bumps_without_rounding:
  "(unat (used p) + unat sz \<le> unat (capacity p) \<longrightarrow>
      pool_alloc p sz = (Some (memory p + used p), p\<lparr>used := used p + sz\<rparr>) \<and>
      unat (used p + sz) = unat (used p) + unat sz \<and>
      spec_round_up (unat (used p)) 1 = unat (used p)) \<and>
   create_pool 64 \<lparr>answers = [0x1000, 0x2000], granted = []\<rparr>
     = (Some \<lparr>memory = 0x2000, used = 0, capacity = 64\<rparr>,
        \<lparr>answers = [], granted = [(0x2000, 64), (0x1000, sizeof_MemoryPool)]\<rparr>) \<and>
   pool_alloc \<lparr>memory = 0x2000, used = 0, capacity = 64\<rparr> 10
     = (Some (0x2000 + 0), \<lparr>memory = 0x2000, used = 10, capacity = 64\<rparr>) \<and>
   pool_alloc \<lparr>memory = 0x2000, used = 10, capacity = 64\<rparr> 10
     = (Some (0x2000 + 10), \<lparr>memory = 0x2000, used = 20, capacity = 64\<rparr>)"
proof -
  have "pool_alloc p sz = (Some (memory p + used p), p\<lparr>used := used p + sz\<rparr>) \<and>
      unat (used p + sz) = unat (used p) + unat sz \<and>
      spec_round_up (unat (used p)) 1 = unat (used p)"
    if "unat (used p) + unat sz \<le> unat (capacity p)"
    using pool_alloc_fits [OF that] by (simp add: spec_round_up_def)
  moreover have "create_pool 64 \<lparr>answers = [0x1000, 0x2000], granted = []\<rparr>
     = (Some \<lparr>memory = 0x2000, used = 0, capacity = 64\<rparr>,
        \<lparr>answers = [], granted = [(0x2000, 64), (0x1000, sizeof_MemoryPool)]\<rparr>)"
    by (simp add: create_pool_def malloc_def NULL_def)
  moreover have "pool_alloc \<lparr>memory = 0x2000, used = 0, capacity = 64\<rparr> 10
     = (Some (0x2000 + 0), \<lparr>memory = 0x2000, used = 10, capacity = 64\<rparr>)"
    by (simp add: pool_alloc_def)
  moreover have "pool_alloc \<lparr>memory = 0x2000, used = 10, capacity = 64\<rparr> 10
     = (Some (0x2000 + 10), \<lparr>memory = 0x2000, used = 20, capacity = 64\<rparr>)"
    by (simp add: pool_alloc_def)
  ultimately show ?thesis by (intro conjI impI) simp_all
qed

theorem alloc_bumps_without_rounding_witness:
  "unat (used \<lparr>memory = 0x2000, used = 20, capacity = 64\<rparr>) + unat (44 :: size_t)
     \<le> unat (capacity \<lparr>memory = 0x2000, used = 20, capacity = 64\<rparr>) \<and>
   pool_alloc \<lparr>memory = 0x2000, used = 20, capacity = 64\<rparr> 44
     = (Some 0x2014, \<lparr>memory = 0x2000, used = 64, capacity = 64\<rparr>)"
  using alloc_bumps_without_rounding [of "\<lparr>memory = 0x2000, used = 20, capacity = 64\<rparr>" 44]
  by simp

text \<open>
  C4, as stated, fails: on a fresh pool of capacity 64 whose buffer starts at the aligned
  address \<open>0x2000\<close>, two requests of 1 byte return the offsets 0 and 1. The second
  address is not a multiple of 8, and its offset is 1 where rounding up would give 8. The
  static pool of StackVHeap.c answers the same.
\<close>

theorem unaligned_start_counterexample:
  "fst (pool_allocs \<lparr>memory = 0x2000, used = 0, capacity = 64\<rparr> [1, 1])
     = [Some 0x2000, Some 0x2001] \<and>
   fst (pool_allocs_static (static_init 0x2000) [1, 1]) = [Some 0x2000, Some 0x2001] \<and>
   unat ((0x2001 :: ptr) - 0x2000) = 1 \<and>
   unat (0x2001 :: ptr) mod 8 = 1 \<and>
   spec_round_up 1 8 = 8"
  by (simp add: pool_alloc_def pool_alloc_static_def static_init_def POOL_SIZE_def
      spec_round_up_def)

text \<open>
  C4, amended. In a run of calls that together fit, the range returned by call \<open>i\<close> starts
  at the offset \<open>used\<close> plus the sizes of the calls before it; nothing is rounded. The
  offset is therefore a multiple of \<open>a\<close> whenever \<open>used\<close> at the start and every earlier
  size are multiples of \<open>a\<close>. This holds for the fixed pool and for the static pool.
\<close>

theorem start_is_base_plus_earlier_sizes:
  "(unat (used p) + sum_list (map unat ns) \<le> unat (capacity p) \<and> i < length ns \<longrightarrow>
      (\<exists>q. fst (pool_allocs p ns) ! i = Some q \<and>
         unat (q - memory p) = unat (used p) + sum_list (map unat (take i ns)) \<and>
         (a dvd unat (used p) \<and> (\<forall>n\<in>set (take i ns). a dvd unat n) \<longrightarrow>
            a dvd unat (q - memory p)))) \<and>
   (unat (pool_index st) + sum_list (map unat ns) \<le> unat POOL_SIZE \<and> i < length ns \<longrightarrow>
      (\<exists>q. fst (pool_allocs_static st ns) ! i = Some q \<and>
         unat (q - memory_pool st) = unat (pool_index st) + sum_list (map unat (take i ns)) \<and>
         (a dvd unat (pool_index st) \<and> (\<forall>n\<in>set (take i ns). a dvd unat n) \<longrightarrow>
            a dvd unat (q - memory_pool st))))"
proof -
  have main: "\<exists>q. fst (pool_allocs p ns) ! i = Some q \<and>
         unat (q - memory p) = unat (used p) + sum_list (map unat (take i ns)) \<and>
         (a dvd unat (used p) \<and> (\<forall>n\<in>set (take i ns). a dvd unat n) \<longrightarrow>
            a dvd unat (q - memory p))"
    if fit: "unat (used p) + sum_list (map unat ns) \<le> unat (capacity p)" and i: "i < length ns"
    for p :: MemoryPool
  proof -
    from pool_allocs_offset [OF fit i] obtain q where
      q: "fst (pool_allocs p ns) ! i = Some q"
        "unat (q - memory p) = unat (used p) + sum_list (map unat (take i ns))"
      by blast
    have "a dvd unat (q - memory p)"
      if "a dvd unat (used p)" "\<forall>n\<in>set (take i ns). a dvd unat n"
    proof -
      have "a dvd sum_list (map unat (take i ns))"
        using that(2) by (intro dvd_sum_list) simp
      with that(1) show ?thesis by (simp add: q(2))
    qed
    with q show ?thesis by blast
  qed
  show ?thesis
  proof (intro conjI impI)
    assume "unat (used p) + sum_list (map unat ns) \<le> unat (capacity p) \<and> i < length ns"
    then show "\<exists>q. fst (pool_allocs p ns) ! i = Some q \<and>
         unat (q - memory p) = unat (used p) + sum_list (map unat (take i ns)) \<and>
         (a dvd unat (used p) \<and> (\<forall>n\<in>set (take i ns). a dvd unat n) \<longrightarrow>
            a dvd unat (q - memory p))"
      using main [of p] by blast
  next
    assume "unat (pool_index st) + sum_list (map unat ns) \<le> unat POOL_SIZE \<and> i < length ns"
    then have "unat (used (as_pool st)) + sum_list (map unat ns) \<le> unat (capacity (as_pool st))"
      and "i < length ns"
      by (simp_all add: as_pool_def)
    from main [OF this]
    show "\<exists>q. fst (pool_allocs_static st ns) ! i = Some q \<and>
         unat (q - memory_pool st) = unat (pool_index st) + sum_list (map unat (take i ns)) \<and>
         (a dvd unat (pool_index st) \<and> (\<forall>n\<in>set (take i ns). a dvd unat n) \<longrightarrow>
            a dvd unat (q - memory_pool st))"
      by (simp add: pool_allocs_static_as_pool as_pool_def)
  qed
qed

theorem start_is_base_plus_earlier_sizes_witness:
  "unat (used \<lparr>memory = 0x2000, used = 0, capacity = 64\<rparr>) + sum_list (map unat [8, 16, 8 :: size_t])
      \<le> unat (capacity \<lparr>memory = 0x2000, used = 0, capacity = 64\<rparr>) \<and>
   (2 :: nat) < length [8, 16, 8 :: size_t] \<and>
   fst (pool_allocs \<lparr>memory = 0x2000, used = 0, capacity = 64\<rparr> [8, 16, 8]) ! 2 = Some 0x2018 \<and>
   (8 :: nat) dvd unat ((0x2018 :: ptr) - 0x2000) \<and>
   unat (pool_index (static_init 0x2000)) + sum_list (map unat [8, 16, 8 :: size_t])
      \<le> unat POOL_SIZE \<and>
   fst (pool_allocs_static (static_init 0x2000) [8, 16, 8]) ! 2 = Some 0x2018 \<and>
   (8 :: nat) dvd unat ((0x2018 :: ptr) - memory_pool (static_init 0x2000))"
proof -
  let ?p = "\<lparr>memory = 0x2000, used = 0, capacity = 64\<rparr>"
  let ?ns = "[8, 16, 8] :: size_t list"
  have h1: "unat (used ?p) + sum_list (map unat ?ns) \<le> unat (capacity ?p)" by simp
  have h2: "(2 :: nat) < length ?ns" by simp
  have h3: "unat (pool_index (static_init 0x2000)) + sum_list (map unat ?ns) \<le> unat POOL_SIZE"
    by (simp add: static_init_def POOL_SIZE_def)
  note T = start_is_base_plus_earlier_sizes [of ?p ?ns 2 8 "static_init 0x2000"]
  from T h1 h2 obtain q where q: "fst (pool_allocs ?p ?ns) ! 2 = Some q"
    "unat (q - memory ?p) = unat (used ?p) + sum_list (map unat (take 2 ?ns))"
    "8 dvd unat (used ?p) \<and> (\<forall>n\<in>set (take 2 ?ns). 8 dvd unat n) \<longrightarrow> 8 dvd unat (q - memory ?p)"
    by blast
  have r: "fst (pool_allocs ?p ?ns) ! 2 = Some 0x2018"
    by (simp add: pool_alloc_def)
  with q(1) have qv: "q = 0x2018" by simp
  have t2: "take 2 ?ns = [8, 16]" by (simp add: numeral_2_eq_2)
  have d: "(8 :: nat) dvd unat ((0x2018 :: ptr) - 0x2000)"
    using q(3) unfolding qv t2 by simp
  have r': "fst (pool_allocs_static (static_init 0x2000) ?ns) ! 2 = Some 0x2018"
    by (simp add: pool_alloc_static_def static_init_def POOL_SIZE_def)
  from T h3 h2 obtain q' where q': "fst (pool_allocs_static (static_init 0x2000) ?ns) ! 2 = Some q'"
    "8 dvd unat (pool_index (static_init 0x2000)) \<and> (\<forall>n\<in>set (take 2 ?ns). 8 dvd unat n)
       \<longrightarrow> 8 dvd unat (q' - memory_pool (static_init 0x2000))"
    by blast
  from q'(1) r' have qv': "q' = 0x2018" by simp
  have d': "(8 :: nat) dvd unat ((0x2018 :: ptr) - memory_pool (static_init 0x2000))"
    using q'(2) unfolding qv' t2 by (simp add: static_init_def)
  show ?thesis
    by (intro conjI h1 h2 h3 r d r' d')
qed

section \<open>Chaining\<close>

text \<open>
  Where the request is no larger than a block, the chained pool does what the
  specification describes for alignment 1: the new block has the size the specification
  computes, it becomes the current block in front of the old chain, and the request is
  served at its offset 0 and lies within it.
\<close>

lemma chained_small_request_fits:
  assumes "needs_block pool sz" and "answers s = h # m # rest" and "h \<noteq> NULL" and "m \<noteq> NULL"
    and "sz \<le> POOL_BLOCK_SIZE"
  shows "pool_alloc_chained pool sz s
       = (Some m, Some (ChainedPool m sz pool),
          s\<lparr>answers := rest,
            granted := (m, POOL_BLOCK_SIZE) # (h, sizeof_MemoryPool) # granted s\<rparr>)"
    and "spec_block_size (unat POOL_BLOCK_SIZE) (unat sz) 1 = unat POOL_BLOCK_SIZE"
    and "byte_range m sz \<subseteq> byte_range m POOL_BLOCK_SIZE"
proof -
  show "pool_alloc_chained pool sz s
       = (Some m, Some (ChainedPool m sz pool),
          s\<lparr>answers := rest,
            granted := (m, POOL_BLOCK_SIZE) # (h, sizeof_MemoryPool) # granted s\<rparr>)"
    using assms(1-4)
    by (simp add: pool_alloc_chained_def create_pool_chained_def bump_chained_def malloc_def)
  have "unat sz \<le> unat POOL_BLOCK_SIZE"
    using assms(5) by (simp add: word_le_nat_alt)
  then show "spec_block_size (unat POOL_BLOCK_SIZE) (unat sz) 1 = unat POOL_BLOCK_SIZE"
    by (simp add: spec_block_size_def)
  show "byte_range m sz \<subseteq> byte_range m POOL_BLOCK_SIZE"
    using assms(5) by (rule byte_range_mono)
qed

text \<open>
  C5. The specification asks for a new block of \<open>max(default_block_size, size +
  alignment - 1)\<close> bytes, so that the retried allocation fits in it for every request
  size. \<^verbatim>\<open>create_pool\<close> always asks \<^verbatim>\<open>malloc\<close> for \<open>POOL_BLOCK_SIZE = 1024\<close> bytes,
  and \<^verbatim>\<open>pool_alloc\<close> bumps the new block without testing the request against it. A
  request of 1500 bytes on a pool whose current block has used 1000 bytes chains a block of
  1024 bytes, where the specification computes 1500, sets its \<open>used\<close> to 1500, and
  byte 1200 of the returned range lies outside of the block.
\<close>

theorem chained_block_not_sized_for_request:
  "pool_alloc_chained (Some (ChainedPool 0x2000 1000 None)) 1500
       \<lparr>answers = [0x3000, 0x4000], granted = []\<rparr>
     = (Some 0x4000,
        Some (ChainedPool 0x4000 1500 (Some (ChainedPool 0x2000 1000 None))),
        \<lparr>answers = [], granted = [(0x4000, POOL_BLOCK_SIZE), (0x3000, sizeof_MemoryPool)]\<rparr>) \<and>
   spec_block_size (unat POOL_BLOCK_SIZE) 1500 1 = 1500 \<and>
   unat POOL_BLOCK_SIZE = 1024 \<and>
   0x4000 + 1200 \<in> byte_range 0x4000 1500 \<and>
   0x4000 + 1200 \<notin> byte_range 0x4000 POOL_BLOCK_SIZE"
  by (simp add: pool_alloc_chained_def create_pool_chained_def needs_block_def bump_chained_def
      malloc_def NULL_def POOL_BLOCK_SIZE_def spec_block_size_def byte_range_iff)

section \<open>No aliasing\<close>

text \<open>
  C2. For every run of \<^verbatim>\<open>pool_alloc\<close> calls on one pool whose sizes together fit in the
  space that is left, every call succeeds, each returned range lies within the block, and
  the ranges of two different calls have no byte in common. This holds for the pool of
  DynamicMemoryAllocation.c and for the static pool of MemoryLeaks.c.
\<close>

theorem allocations_disjoint:
  "(unat (used p) + sum_list (map unat ns) \<le> unat (capacity p) \<longrightarrow>
      length (fst (pool_allocs p ns)) = length ns \<and>
      (\<forall>i<length ns. \<exists>q. fst (pool_allocs p ns) ! i = Some q \<and>
          byte_range q (ns ! i) \<subseteq> byte_range (memory p) (capacity p)) \<and>
      (\<forall>i j q q'. i < j \<and> j < length ns \<and>
          fst (pool_allocs p ns) ! i = Some q \<and> fst (pool_allocs p ns) ! j = Some q' \<longrightarrow>
          byte_range q (ns ! i) \<inter> byte_range q' (ns ! j) = {})) \<and>
   (unat (pool_index st) + sum_list (map unat ns) \<le> unat POOL_SIZE \<longrightarrow>
      length (fst (pool_allocs_static st ns)) = length ns \<and>
      (\<forall>i<length ns. \<exists>q. fst (pool_allocs_static st ns) ! i = Some q \<and>
          byte_range q (ns ! i) \<subseteq> byte_range (memory_pool st) POOL_SIZE) \<and>
      (\<forall>i j q q'. i < j \<and> j < length ns \<and>
          fst (pool_allocs_static st ns) ! i = Some q \<and>
          fst (pool_allocs_static st ns) ! j = Some q' \<longrightarrow>
          byte_range q (ns ! i) \<inter> byte_range q' (ns ! j) = {}))"
proof (intro conjI impI)
  assume fit: "unat (used p) + sum_list (map unat ns) \<le> unat (capacity p)"
  show "length (fst (pool_allocs p ns)) = length ns"
    by (rule pool_allocs_length)
  from fitting_run [OF fit]
  show "\<forall>i<length ns. \<exists>q. fst (pool_allocs p ns) ! i = Some q \<and>
          byte_range q (ns ! i) \<subseteq> byte_range (memory p) (capacity p)"
    and "\<forall>i j q q'. i < j \<and> j < length ns \<and>
          fst (pool_allocs p ns) ! i = Some q \<and> fst (pool_allocs p ns) ! j = Some q' \<longrightarrow>
          byte_range q (ns ! i) \<inter> byte_range q' (ns ! j) = {}"
    by blast+
next
  assume "unat (pool_index st) + sum_list (map unat ns) \<le> unat POOL_SIZE"
  then have fit: "unat (used (as_pool st)) + sum_list (map unat ns) \<le> unat (capacity (as_pool st))"
    by (simp add: as_pool_def)
  show "length (fst (pool_allocs_static st ns)) = length ns"
    by (simp add: pool_allocs_static_as_pool pool_allocs_length)
  from fitting_run [OF fit]
  show "\<forall>i<length ns. \<exists>q. fst (pool_allocs_static st ns) ! i = Some q \<and>
          byte_range q (ns ! i) \<subseteq> byte_range (memory_pool st) POOL_SIZE"
    and "\<forall>i j q q'. i < j \<and> j < length ns \<and>
          fst (pool_allocs_static st ns) ! i = Some q \<and>
          fst (pool_allocs_static st ns) ! j = Some q' \<longrightarrow>
          byte_range q (ns ! i) \<inter> byte_range q' (ns ! j) = {}"
    by (simp_all add: pool_allocs_static_as_pool as_pool_def)
qed

theorem allocations_disjoint_witness:
  "unat (used \<lparr>memory = 4096, used = 0, capacity = 64\<rparr>) + sum_list (map unat [10, 10, 44 :: size_t])
      \<le> unat (capacity \<lparr>memory = 4096, used = 0, capacity = 64\<rparr>) \<and>
   fst (pool_allocs \<lparr>memory = 4096, used = 0, capacity = 64\<rparr> [10, 10, 44])
      = [Some 4096, Some 4106, Some 4116] \<and>
   byte_range 4096 10 \<inter> byte_range 4116 44 = {} \<and>
   byte_range 4116 44 \<subseteq> byte_range 4096 64 \<and>
   unat (pool_index \<lparr>memory_pool = 8192, pool_index = 0\<rparr>) + sum_list (map unat [10, 10, 44 :: size_t])
      \<le> unat POOL_SIZE \<and>
   fst (pool_allocs_static \<lparr>memory_pool = 8192, pool_index = 0\<rparr> [10, 10, 44])
      = [Some 8192, Some 8202, Some 8212] \<and>
   byte_range 8202 10 \<inter> byte_range 8212 44 = {} \<and>
   byte_range 8202 10 \<subseteq> byte_range 8192 POOL_SIZE"
proof -
  let ?p = "\<lparr>memory = 4096, used = 0, capacity = 64\<rparr>"
  let ?st = "\<lparr>memory_pool = 8192, pool_index = 0\<rparr>"
  let ?ns = "[10, 10, 44] :: size_t list"
  have h1: "unat (used ?p) + sum_list (map unat ?ns) \<le> unat (capacity ?p)"
    by simp
  have h2: "unat (pool_index ?st) + sum_list (map unat ?ns) \<le> unat POOL_SIZE"
    by (simp add: POOL_SIZE_def)
  have r1: "fst (pool_allocs ?p ?ns) = [Some 4096, Some 4106, Some 4116]"
    by (simp add: pool_alloc_def)
  have r2: "fst (pool_allocs_static ?st ?ns) = [Some 8192, Some 8202, Some 8212]"
    by (simp add: pool_alloc_static_def POOL_SIZE_def)
  note T = allocations_disjoint [of ?p ?ns ?st]
  from T h1 have in1: "\<forall>i<length ?ns. \<exists>q. fst (pool_allocs ?p ?ns) ! i = Some q \<and>
          byte_range q (?ns ! i) \<subseteq> byte_range (memory ?p) (capacity ?p)"
    and d1: "\<forall>i j q q'. i < j \<and> j < length ?ns \<and>
          fst (pool_allocs ?p ?ns) ! i = Some q \<and> fst (pool_allocs ?p ?ns) ! j = Some q' \<longrightarrow>
          byte_range q (?ns ! i) \<inter> byte_range q' (?ns ! j) = {}"
    by blast+
  from T h2 have in2: "\<forall>i<length ?ns. \<exists>q. fst (pool_allocs_static ?st ?ns) ! i = Some q \<and>
          byte_range q (?ns ! i) \<subseteq> byte_range (memory_pool ?st) POOL_SIZE"
    and d2: "\<forall>i j q q'. i < j \<and> j < length ?ns \<and>
          fst (pool_allocs_static ?st ?ns) ! i = Some q \<and>
          fst (pool_allocs_static ?st ?ns) ! j = Some q' \<longrightarrow>
          byte_range q (?ns ! i) \<inter> byte_range q' (?ns ! j) = {}"
    by blast+
  have a: "byte_range 4096 10 \<inter> byte_range 4116 44 = {}"
    using d1 [rule_format, of 0 2 4096 4116] unfolding r1 by simp
  have b: "byte_range 4116 44 \<subseteq> byte_range 4096 64"
    using in1 [rule_format, of 2] unfolding r1 by simp
  have c: "byte_range 8202 10 \<inter> byte_range 8212 44 = {}"
    using d2 [rule_format, of 1 2 8202 8212] unfolding r2 by simp
  have d: "byte_range 8202 10 \<subseteq> byte_range 8192 POOL_SIZE"
    using in2 [rule_format, of 1] unfolding r2 by simp
  show ?thesis
    by (intro conjI h1 r1 a b h2 r2 c d)
qed

end
